theory Spec2Isabelle
  imports Main
begin

section \<open>Package santa: the wire enums of the sync server\<close>

text \<open>
  The Go source declares \<^verbatim>\<open>type RuleType int\<close>, \<^verbatim>\<open>type Policy int\<close> and
  \<^verbatim>\<open>type ClientMode int\<close>, with constants numbered by \<^verbatim>\<open>iota\<close>. A value of such a
  type is any integer, not only a declared constant, so the three types are integers
  here and the constants are the numbers \<^verbatim>\<open>iota\<close> assigns. No arithmetic is done on
  them, so the width of Go's \<^verbatim>\<open>int\<close> plays no role.

  A byte slice is a \<open>string\<close> (a list of 8-bit characters); the nil slice that the
  failing branches of \<^verbatim>\<open>MarshalText\<close> return is \<open>None\<close>. A Go \<^verbatim>\<open>error\<close> result is an
  \<open>error option\<close>, with \<open>None\<close> for nil.
\<close>

type_synonym RuleType = int
type_synonym Policy = int
type_synonym ClientMode = int

definition Binary :: RuleType where "Binary = 0"
definition Certificate :: RuleType where "Certificate = 1"
definition TeamID :: RuleType where "TeamID = 2"
definition SigningID :: RuleType where "SigningID = 3"

definition Blocklist :: Policy where "Blocklist = 0"
definition Allowlist :: Policy where "Allowlist = 1"
definition AllowlistCompiler :: Policy where "AllowlistCompiler = 2"
definition Remove :: Policy where "Remove = 3"

definition Monitor :: ClientMode where "Monitor = 0"
definition Lockdown :: ClientMode where "Lockdown = 1"

text \<open>
  \<^verbatim>\<open>errors.Errorf(format, arg)\<close>: the error value keeps the format string of the call
  and its one argument, which the source prints either quoted (\<^verbatim>\<open>%q\<close>, the rejected
  text) or in decimal (\<^verbatim>\<open>%d\<close>, the rejected number).
\<close>

datatype fmt_arg = Quoted string | Decimal int

datatype error = Errorf string fmt_arg

subsection \<open>RuleType\<close>

text \<open>
  \<^verbatim>\<open>func (r *RuleType) UnmarshalText(text []byte) error\<close>. The receiver is a pointer:
  the model takes the value stored behind it before the call and returns the value
  stored there after the call, next to the error result. The default branch returns
  before any assignment.
\<close>

definition RuleType_UnmarshalText :: "string \<Rightarrow> RuleType \<Rightarrow> RuleType \<times> error option" where
  "RuleType_UnmarshalText text r =
     (let t = text in
      if t = ''BINARY'' then (Binary, None)
      else if t = ''CERTIFICATE'' then (Certificate, None)
      else if t = ''TEAMID'' then (TeamID, None)
      else if t = ''SIGNINGID'' then (SigningID, None)
      else (r, Some (Errorf ''unknown rule_type value %q'' (Quoted t))))"

text \<open>\<^verbatim>\<open>func (r RuleType) MarshalText() ([]byte, error)\<close>.\<close>

definition RuleType_MarshalText :: "RuleType \<Rightarrow> string option \<times> error option" where
  "RuleType_MarshalText r =
     (if r = Binary then (Some ''BINARY'', None)
      else if r = Certificate then (Some ''CERTIFICATE'', None)
      else if r = TeamID then (Some ''TEAMID'', None)
      else if r = SigningID then (Some ''SIGNINGID'', None)
      else (None, Some (Errorf ''unknown rule_type %d'' (Decimal r))))"

subsection \<open>Policy\<close>

definition Policy_UnmarshalText :: "string \<Rightarrow> Policy \<Rightarrow> Policy \<times> error option" where
  "Policy_UnmarshalText text p =
     (let t = text in
      if t = ''BLOCKLIST'' then (Blocklist, None)
      else if t = ''ALLOWLIST'' then (Allowlist, None)
      else if t = ''ALLOWLIST_COMPILER'' then (AllowlistCompiler, None)
      else if t = ''REMOVE'' then (Remove, None)
      else (p, Some (Errorf ''unknown policy value %q'' (Quoted t))))"

definition Policy_MarshalText :: "Policy \<Rightarrow> string option \<times> error option" where
  "Policy_MarshalText p =
     (if p = Blocklist then (Some ''BLOCKLIST'', None)
      else if p = Allowlist then (Some ''ALLOWLIST'', None)
      else if p = AllowlistCompiler then (Some ''ALLOWLIST_COMPILER'', None)
      else if p = Remove then (Some ''REMOVE'', None)
      else (None, Some (Errorf ''unknown policy %d'' (Decimal p))))"

subsection \<open>ClientMode\<close>

definition ClientMode_UnmarshalText :: "string \<Rightarrow> ClientMode \<Rightarrow> ClientMode \<times> error option" where
  "ClientMode_UnmarshalText text c =
     (let mode = text in
      if mode = ''MONITOR'' then (Monitor, None)
      else if mode = ''LOCKDOWN'' then (Lockdown, None)
      else (c, Some (Errorf ''unknown client_mode value %q'' (Quoted mode))))"

definition ClientMode_MarshalText :: "ClientMode \<Rightarrow> string option \<times> error option" where
  "ClientMode_MarshalText c =
     (if c = Monitor then (Some ''MONITOR'', None)
      else if c = Lockdown then (Some ''LOCKDOWN'', None)
      else (None, Some (Errorf ''unknown client_mode %d'' (Decimal c))))"

text \<open>The recognised wire texts and the declared constants of each type.\<close>

definition RuleType_values :: "RuleType set" where
  "RuleType_values = {Binary, Certificate, TeamID, SigningID}"

definition Policy_values :: "Policy set" where
  "Policy_values = {Blocklist, Allowlist, AllowlistCompiler, Remove}"

definition ClientMode_values :: "ClientMode set" where
  "ClientMode_values = {Monitor, Lockdown}"

definition RuleType_wire :: "string set" where
  "RuleType_wire = {''BINARY'', ''CERTIFICATE'', ''TEAMID'', ''SIGNINGID''}"

definition Policy_wire :: "string set" where
  "Policy_wire = {''BLOCKLIST'', ''ALLOWLIST'', ''ALLOWLIST_COMPILER'', ''REMOVE''}"

definition ClientMode_wire :: "string set" where
  "ClientMode_wire = {''MONITOR'', ''LOCKDOWN''}"

section \<open>The structs of package santa\<close>

text \<open>
  \<^verbatim>\<open>type Rule struct\<close> and \<^verbatim>\<open>type Preflight struct\<close>, field by field. Go's \<^verbatim>\<open>int\<close>
  fields are integers.
\<close>

record Rule =
  RuleType :: RuleType
  Policy :: Policy
  Identifier :: string
  CustomMessage :: string

record Preflight =
  ClientMode :: ClientMode
  BlockedPathRegex :: string
  AllowedPathRegex :: string
  BatchSize :: int
  EnableBundles :: bool
  EnableTransitiveRules :: bool
  CleanSync :: bool
  FullSyncInterval :: int

text \<open>
  \<^verbatim>\<open>type EventPayload struct\<close>. \<^verbatim>\<open>UnixTime\<close> is a \<^verbatim>\<open>float64\<close>; nothing below computes
  with it, so its type is left open (\<open>'f\<close>). \<^verbatim>\<open>Content\<close> is a \<^verbatim>\<open>json.RawMessage\<close>, a
  byte slice.
\<close>

record 'f EventPayload =
  FileSHA :: string
  UnixTime :: 'f
  Content :: string

subsection \<open>The JSON view of EventPayload\<close>

text \<open>
  The struct tags of the three fields, as the source writes them:
  \<^verbatim>\<open>json:"file_sha256"\<close>, \<^verbatim>\<open>json:"execution_time"\<close> and \<^verbatim>\<open>json:"-"\<close>.
\<close>

datatype EventPayload_field = F_FileSHA | F_UnixTime | F_Content

definition EventPayload_fields :: "EventPayload_field list" where
  "EventPayload_fields = [F_FileSHA, F_UnixTime, F_Content]"

fun json_tag :: "EventPayload_field \<Rightarrow> string" where
  "json_tag F_FileSHA = ''file_sha256''"
| "json_tag F_UnixTime = ''execution_time''"
| "json_tag F_Content = ''-''"

text \<open>
  The source has no encoder of its own: the struct is handed to Go's
  \<^verbatim>\<open>encoding/json\<close>, which reads the tags. The part of that package the tags select
  is modelled here from its documentation: a field tagged \<^verbatim>\<open>"-"\<close> is omitted, both
  when encoding and when decoding; every other field is written under its tag, in
  declaration order, and a field whose value has no JSON form (a \<^verbatim>\<open>float64\<close> that is
  NaN or infinite) makes \<^verbatim>\<open>json.Marshal\<close> return an \<^verbatim>\<open>UnsupportedValueError\<close> and no
  output; decoding walks the members of the object in order, looks for the field
  whose tag is the member's key (exactly, or else ignoring case), stores the member
  there, ignores a member that matches no field, and on a value that does not fit the
  field's Go type leaves the field, goes on, and reports the first such error at the
  end. A document that is not an object changes nothing.

  Everything else \<^verbatim>\<open>encoding/json\<close> does is a parameter, the record \<open>json_codec\<close>:
  how a Go string, a \<^verbatim>\<open>float64\<close> and a \<^verbatim>\<open>json.RawMessage\<close> are written as a JSON
  value (\<open>'v\<close>; \<open>None\<close> for a \<^verbatim>\<open>float64\<close> or a raw message that cannot be written),
  how a JSON value is read into a field of each of these types (given the field's old
  content, which \<^verbatim>\<open>null\<close> keeps; \<open>None\<close> when the value does not fit), which value is
  \<^verbatim>\<open>null\<close>, and when a key equals a tag up to case.
\<close>

record ('f, 'v) json_codec =
  enc_string :: "string \<Rightarrow> 'v"
  enc_float64 :: "'f \<Rightarrow> 'v option"
  enc_raw :: "string \<Rightarrow> 'v option"
  dec_string :: "'v \<Rightarrow> string \<Rightarrow> string option"
  dec_float64 :: "'v \<Rightarrow> 'f \<Rightarrow> 'f option"
  dec_raw :: "'v \<Rightarrow> string \<Rightarrow> string option"
  is_null :: "'v \<Rightarrow> bool"
  fold_eq :: "string \<Rightarrow> string \<Rightarrow> bool"

datatype 'v json_doc = Object "(string \<times> 'v) list" | Other 'v | Malformed

datatype json_error = SyntaxError | UnmarshalTypeError string | UnsupportedValueError string

definition json_visible :: "EventPayload_field list" where
  "json_visible = filter (\<lambda>f. json_tag f \<noteq> ''-'') EventPayload_fields"

fun field_json ::
  "('f, 'v) json_codec \<Rightarrow> 'f EventPayload \<Rightarrow> EventPayload_field \<Rightarrow> 'v option" where
  "field_json cd p F_FileSHA = Some (enc_string cd (FileSHA p))"
| "field_json cd p F_UnixTime = enc_float64 cd (UnixTime p)"
| "field_json cd p F_Content = enc_raw cd (Content p)"

text \<open>The members of the given fields, in order; the first field that cannot be
  written ends the encoding with its error and no output.\<close>

fun encode_fields ::
  "('f, 'v) json_codec \<Rightarrow> 'f EventPayload \<Rightarrow> EventPayload_field list \<Rightarrow>
   json_error + (string \<times> 'v) list" where
  "encode_fields cd p [] = Inr []"
| "encode_fields cd p (f # fs) =
     (case field_json cd p f of
        None \<Rightarrow> Inl (UnsupportedValueError (json_tag f))
      | Some v \<Rightarrow>
          (case encode_fields cd p fs of
             Inl e \<Rightarrow> Inl e
           | Inr ms \<Rightarrow> Inr ((json_tag f, v) # ms)))"

text \<open>\<^verbatim>\<open>json.Marshal(p)\<close>: the members of the object it writes, or its error.\<close>

definition EventPayload_MarshalJSON ::
  "('f, 'v) json_codec \<Rightarrow> 'f EventPayload \<Rightarrow> json_error + (string \<times> 'v) list" where
  "EventPayload_MarshalJSON cd p = encode_fields cd p json_visible"

fun set_field ::
  "('f, 'v) json_codec \<Rightarrow> EventPayload_field \<Rightarrow> 'v \<Rightarrow> 'f EventPayload \<Rightarrow>
   'f EventPayload \<times> json_error option" where
  "set_field cd F_FileSHA v p =
     (case dec_string cd v (FileSHA p) of
        None \<Rightarrow> (p, Some (UnmarshalTypeError (json_tag F_FileSHA)))
      | Some s \<Rightarrow> (p\<lparr>FileSHA := s\<rparr>, None))"
| "set_field cd F_UnixTime v p =
     (case dec_float64 cd v (UnixTime p) of
        None \<Rightarrow> (p, Some (UnmarshalTypeError (json_tag F_UnixTime)))
      | Some x \<Rightarrow> (p\<lparr>UnixTime := x\<rparr>, None))"
| "set_field cd F_Content v p =
     (case dec_raw cd v (Content p) of
        None \<Rightarrow> (p, Some (UnmarshalTypeError (json_tag F_Content)))
      | Some s \<Rightarrow> (p\<lparr>Content := s\<rparr>, None))"

definition lookup_field :: "('f, 'v) json_codec \<Rightarrow> string \<Rightarrow> EventPayload_field option" where
  "lookup_field cd k =
     (case find (\<lambda>f. json_tag f = k) json_visible of
        Some f \<Rightarrow> Some f
      | None \<Rightarrow> find (\<lambda>f. fold_eq cd (json_tag f) k) json_visible)"

definition decode_member ::
  "('f, 'v) json_codec \<Rightarrow> string \<times> 'v \<Rightarrow>
   'f EventPayload \<times> json_error option \<Rightarrow> 'f EventPayload \<times> json_error option" where
  "decode_member cd kv st =
     (case lookup_field cd (fst kv) of
        None \<Rightarrow> st
      | Some f \<Rightarrow>
          (case set_field cd f (snd kv) (fst st) of
             (p', e) \<Rightarrow> (p', (case snd st of None \<Rightarrow> e | Some e0 \<Rightarrow> Some e0))))"

text \<open>\<^verbatim>\<open>json.Unmarshal(data, &p)\<close>: the payload behind the pointer before the call goes
  in, the payload after the call and the error come out.\<close>

fun EventPayload_UnmarshalJSON ::
  "('f, 'v) json_codec \<Rightarrow> 'v json_doc \<Rightarrow> 'f EventPayload \<Rightarrow>
   'f EventPayload \<times> json_error option" where
  "EventPayload_UnmarshalJSON cd Malformed p = (p, Some SyntaxError)"
| "EventPayload_UnmarshalJSON cd (Other v) p =
     (p, if is_null cd v then None else Some (UnmarshalTypeError ''EventPayload''))"
| "EventPayload_UnmarshalJSON cd (Object members) p = fold (decode_member cd) members (p, None)"

section \<open>The sync core described by the specification\<close>

text \<open>
  The repository's sources hold the data types above. The precedence engine, the
  rule store's upsert, the batch pager and the session's phase guard are not in the
  sources: the specification describes them, and every definition of this section is
  modelled from it and quotes the sentences it follows.
\<close>

text \<open>Modelled from the spec: the error kinds of its section 7, which the sources
  do not declare.\<close>

datatype error_kind = InvalidPayload | UnknownEnumValue | ProtocolViolation | CursorStale
  | SessionConflict | StoreUnavailable

subsection \<open>Rule store: upserts\<close>

text \<open>Modelled from the spec: the key of a rule within one machine's rule set,
  "\<^verbatim>\<open>(MachineID, RuleType, Identifier)\<close>" with the machine fixed.\<close>

definition rule_key :: "Rule \<Rightarrow> RuleType \<times> string" where
  "rule_key r = (RuleType r, Identifier r)"

text \<open>
  Modelled from the spec: the rule store's upsert, which is not in the sources.
  "\<^verbatim>\<open>(MachineID, RuleType, Identifier)\<close> is unique within a machine's active rule set
  -- the engine must deduplicate/override on conflicting upserts, with \<^verbatim>\<open>Remove\<close>
  policy deleting the tuple rather than adding it." One machine's rules are a list;
  an upsert drops the rule stored under the same key and, unless the policy is
  \<^verbatim>\<open>Remove\<close>, appends the new one.
\<close>

definition upsert_rule :: "Rule list \<Rightarrow> Rule \<Rightarrow> Rule list" where
  "upsert_rule rs r =
     (let kept = filter (\<lambda>x. rule_key x \<noteq> rule_key r) rs
      in if Policy r = Remove then kept else kept @ [r])"

text \<open>Modelled from the spec: upserts "applied in that order", one after the
  other, to a store.\<close>

definition apply_rules :: "Rule list \<Rightarrow> Rule list \<Rightarrow> Rule list" where
  "apply_rules rs upserts = foldl upsert_rule rs upserts"

text \<open>Modelled from the spec: the invariant of the data model, "\<^verbatim>\<open>(MachineID,
  RuleType, Identifier)\<close> is unique within a machine's active rule set".\<close>

definition unique_keys :: "Rule list \<Rightarrow> bool" where
  "unique_keys rs = distinct (map rule_key rs)"

subsection \<open>PolicyPrecedenceEngine\<close>

text \<open>
  Modelled from the spec: the identifiers of an execution event, which the sources
  do not declare: "binary hash, its signing certificate hash, its team identifier,
  its signing identifier -- zero or more may be present".
\<close>

record Execution =
  binary_hash :: "string option"
  certificate_hash :: "string option"
  team_id :: "string option"
  signing_id :: "string option"

text \<open>Modelled from the spec: the engine's answer, "a single effective
  \<^verbatim>\<open>Policy\<close>", together with the identifier the TransitiveAllowlistTracker is told
  to watch as a compiler, if any.\<close>

record Decision =
  effective :: Policy
  watch_compiler :: "string option"

text \<open>Modelled from the spec: the identifier of the event that a rule of a given
  type is compared with; a number that is no declared rule type has none.\<close>

definition event_identifier :: "Execution \<Rightarrow> RuleType \<Rightarrow> string option" where
  "event_identifier e t =
     (if t = Binary then binary_hash e
      else if t = SigningID then signing_id e
      else if t = Certificate then certificate_hash e
      else if t = TeamID then team_id e
      else None)"

text \<open>Modelled from the spec: "the full matching rule set for an execution event's
  identifiers", the rules whose identifier is the event's identifier of their type.\<close>

definition matching_rules :: "Execution \<Rightarrow> Rule list \<Rightarrow> Rule list" where
  "matching_rules e rs = filter (\<lambda>r. event_identifier e (RuleType r) = Some (Identifier r)) rs"

text \<open>
  Modelled from the spec: the effective set of the precedence engine, which is not
  in the sources. "Rules with \<^verbatim>\<open>Remove\<close> policy are excluded from the effective set
  before precedence is applied."
\<close>

definition effective_set :: "Rule list \<Rightarrow> Rule list" where
  "effective_set rs = filter (\<lambda>r. Policy r \<noteq> Remove) rs"

text \<open>Modelled from the spec: "Precedence order (highest wins, most specific
  first): Binary > SigningID > Certificate > TeamID", as an explicit ranked table.\<close>

definition precedence_tiers :: "RuleType list" where
  "precedence_tiers = [Binary, SigningID, Certificate, TeamID]"

text \<open>Modelled from the spec: the verdict of one rule. "\<^verbatim>\<open>AllowlistCompiler\<close>
  resolves to \<^verbatim>\<open>Allowlist\<close> for the immediate verdict but additionally signals the
  TransitiveAllowlistTracker to begin watching binaries produced by this identifier
  as a compiler."\<close>

definition rule_decision :: "Rule \<Rightarrow> Decision" where
  "rule_decision r =
     (if Policy r = AllowlistCompiler
      then \<lparr>effective = Allowlist, watch_compiler = Some (Identifier r)\<rparr>
      else \<lparr>effective = Policy r, watch_compiler = None\<rparr>)"

text \<open>
  Modelled from the spec: the walk down the tiers, which is not in the sources. The
  highest tier that has a rule decides. Two rules of one tier with different policies
  are the case the spec leaves open and asks to treat as a "\<^verbatim>\<open>StoreUnavailable\<close>-class
  inconsistency ... rather than resolver-level guessing". With no rule in any tier
  the fallback is the decision.
\<close>

fun resolve_tiers :: "RuleType list \<Rightarrow> Rule list \<Rightarrow> Decision \<Rightarrow> error_kind + Decision" where
  "resolve_tiers [] rs fb = Inr fb"
| "resolve_tiers (t # ts) rs fb =
     (case filter (\<lambda>r. RuleType r = t) rs of
        [] \<Rightarrow> resolve_tiers ts rs fb
      | r # others \<Rightarrow>
          if list_all (\<lambda>r'. Policy r' = Policy r) others then Inr (rule_decision r)
          else Inl StoreUnavailable)"

text \<open>Modelled from the spec: the precedence engine, which is not in the sources.
  "Pure function: given the full matching rule set for an execution event's
  identifiers ..., compute a single effective \<^verbatim>\<open>Policy\<close>"; "the engine must accept
  and apply [the default] as a fallback parameter".\<close>

definition PolicyPrecedenceEngine :: "Execution \<Rightarrow> Policy \<Rightarrow> Rule list \<Rightarrow> error_kind + Decision" where
  "PolicyPrecedenceEngine e fallback rs =
     resolve_tiers precedence_tiers (effective_set (matching_rules e rs))
       \<lparr>effective = fallback, watch_compiler = None\<rparr>"

text \<open>Modelled from the spec: the fallback of a client mode. "If no rule matches
  any identifier, the effective decision is \<^verbatim>\<open>Blocklist\<close> when \<^verbatim>\<open>ClientMode=Lockdown\<close>,
  \<^verbatim>\<open>Allowlist\<close> (monitor-only logging) when \<^verbatim>\<open>ClientMode=Monitor\<close>"; the spec names no
  default for any other number.\<close>

definition default_decision :: "ClientMode \<Rightarrow> Policy option" where
  "default_decision m =
     (if m = Lockdown then Some Blocklist
      else if m = Monitor then Some Allowlist
      else None)"

subsection \<open>BatchCursorPager\<close>

text \<open>
  Modelled from the spec: the cursor and the versioned rule set, which the sources do
  not declare. "Cursor encodes an opaque offset/version tuple"; the rule set is the
  ordered rule sequence together with the version the pager compares the cursor's
  with.
\<close>

record SyncCursor =
  offset :: nat
  cursor_version :: nat

record RuleSet =
  rules :: "Rule list"
  rules_version :: nat

text \<open>Modelled from the spec: "cursor zero", the cursor of a download that starts
  now: offset 0 at the rule set's version.\<close>

definition cursor_zero :: "RuleSet \<Rightarrow> SyncCursor" where
  "cursor_zero rs = \<lparr>offset = 0, cursor_version = rules_version rs\<rparr>"

text \<open>Modelled from the spec: the batch size in force. "Batches of size
  \<^verbatim>\<open>Preflight.BatchSize\<close> (minimum 1; if the configured size is \<le>0, a safe default,
  e.g. 50, must be substituted)."\<close>

definition effective_batch_size :: "Preflight \<Rightarrow> nat" where
  "effective_batch_size pf = (if BatchSize pf \<le> 0 then 50 else nat (BatchSize pf))"

text \<open>
  Modelled from the spec: the pager behind \<^verbatim>\<open>DownloadBatch\<close>, which is not in the
  sources. \<^verbatim>\<open>DownloadBatch(cursor) -> (RuleBatch, nextCursor, done)\<close>: a cursor of another
  version is \<^verbatim>\<open>CursorStale\<close>; otherwise the batch is the next \<^verbatim>\<open>BatchSize\<close> rules from
  the cursor's offset, the next cursor points behind the batch, and \<^verbatim>\<open>done\<close> says
  that no rule is left behind it.
\<close>

definition DownloadBatch ::
  "Preflight \<Rightarrow> RuleSet \<Rightarrow> SyncCursor \<Rightarrow> error_kind + (Rule list \<times> SyncCursor \<times> bool)" where
  "DownloadBatch pf rs c =
     (if cursor_version c \<noteq> rules_version rs then Inl CursorStale
      else
        let batch = take (effective_batch_size pf) (drop (offset c) (rules rs));
            next = offset c + length batch
        in Inr (batch, c\<lparr>offset := next\<rparr>, length (rules rs) \<le> next))"

text \<open>
  Modelled from the spec: "repeated \<^verbatim>\<open>DownloadBatch\<close> calls from cursor zero", the
  agent's download phase: call \<^verbatim>\<open>DownloadBatch\<close> with the cursor at hand, keep the
  batch and the flag, and call again with the next cursor until a call says \<^verbatim>\<open>done\<close>.
  The rule set is the same in every call. The result lists the rules and the flag of
  every call's reply, in order.
\<close>

function download_all ::
  "Preflight \<Rightarrow> RuleSet \<Rightarrow> SyncCursor \<Rightarrow> error_kind + (Rule list \<times> bool) list" where
  "download_all pf rs c =
     (case DownloadBatch pf rs c of
        Inl e \<Rightarrow> Inl e
      | Inr (batch, next, done) \<Rightarrow>
          if done then Inr [(batch, True)]
          else (case download_all pf rs next of
                  Inl e \<Rightarrow> Inl e
                | Inr rest \<Rightarrow> Inr ((batch, False) # rest)))"
  by pat_completeness auto

termination download_all
  apply (relation "measure (\<lambda>(pf, rs, c). length (rules rs) - offset c)")
   apply simp
  apply (auto simp: DownloadBatch_def Let_def effective_batch_size_def split: if_splits)
  done

declare download_all.simps [simp del]

text \<open>
  Modelled from the spec: the batches a download yields. A batch holds at least one
  rule: "for a rule set of size N and \<^verbatim>\<open>BatchSize\<close> B, repeated \<^verbatim>\<open>DownloadBatch\<close> calls
  from cursor zero yield \<open>\<lceil>N/B\<rceil>\<close> batches", none for the empty rule set, where the one
  call returns no rule and \<^verbatim>\<open>done\<close>.
\<close>

definition batches :: "(Rule list \<times> bool) list \<Rightarrow> Rule list list" where
  "batches replies = filter (\<lambda>b. b \<noteq> []) (map fst replies)"

text \<open>\<open>\<lceil>n/b\<rceil>\<close> on natural numbers.\<close>

definition ceil_div :: "nat \<Rightarrow> nat \<Rightarrow> nat" where
  "ceil_div n b = (n + b - 1) div b"

subsection \<open>SyncSessionManager: the phase guard\<close>

text \<open>Modelled from the spec: the session's states, "\<^verbatim>\<open>Started \<rightarrow> Preflighted \<rightarrow>
  Downloading \<rightarrow> EventsUploaded \<rightarrow> Committed\<close> (terminal); \<^verbatim>\<open>Aborted\<close>", the four calls
  of the session manager, and the session with its phase marker; none is declared in
  the sources.\<close>

datatype Phase = Started | Preflighted | Downloading | EventsUploaded | Committed | Aborted

datatype Call = CallPreflight | CallDownloadBatch | CallUploadEvents | CallPostflight

record Session =
  machine_id :: string
  phase :: Phase

text \<open>
  Modelled from the spec: the expected phase order: the phase a call leads to when it
  comes in order, \<open>None\<close> when it does not. Rule download is paginated, so
  \<^verbatim>\<open>DownloadBatch\<close> is in order again while downloading; "repeated postflight calls
  after commit are no-ops".
\<close>

fun expected_next :: "Phase \<Rightarrow> Call \<Rightarrow> Phase option" where
  "expected_next Started CallPreflight = Some Preflighted"
| "expected_next Preflighted CallDownloadBatch = Some Downloading"
| "expected_next Downloading CallDownloadBatch = Some Downloading"
| "expected_next Downloading CallUploadEvents = Some EventsUploaded"
| "expected_next EventsUploaded CallPostflight = Some Committed"
| "expected_next Committed CallPostflight = Some Committed"
| "expected_next ph c = None"

text \<open>Modelled from the spec: the terminal states, "\<^verbatim>\<open>Committed\<close> (terminal);
  \<^verbatim>\<open>Aborted\<close> (terminal, reachable from any non-terminal state on protocol violation
  or timeout)".\<close>

definition terminal :: "Phase \<Rightarrow> bool" where
  "terminal ph = (ph = Committed \<or> ph = Aborted)"

text \<open>
  Modelled from the spec: the session manager's check of the phase on every call,
  which is not in the sources. "Any call received out of the expected phase order
  fails with \<^verbatim>\<open>ProtocolViolation\<close> and moves the session to \<^verbatim>\<open>Aborted\<close>"; \<^verbatim>\<open>Aborted\<close> is
  "reachable from any non-terminal state", so a session in a terminal state stays in
  it and the call only fails. A call that comes in order moves the session on; what
  the call itself computes, and the errors of its own it can end with, are not part
  of this guard.
\<close>

definition session_call :: "Session \<Rightarrow> Call \<Rightarrow> Session \<times> error_kind option" where
  "session_call s c =
     (case expected_next (phase s) c of
        None \<Rightarrow>
          (if terminal (phase s) then s else s\<lparr>phase := Aborted\<rparr>, Some ProtocolViolation)
      | Some ph \<Rightarrow> (s\<lparr>phase := ph\<rparr>, None))"

text \<open>Modelled from the spec: "a fresh session", in phase \<^verbatim>\<open>Started\<close>.\<close>

definition new_session :: "string \<Rightarrow> Session" where
  "new_session m = \<lparr>machine_id = m, phase = Started\<rparr>"

section \<open>Properties of the wire enums\<close>

lemmas RuleType_consts = Binary_def Certificate_def TeamID_def SigningID_def
lemmas Policy_consts = Blocklist_def Allowlist_def AllowlistCompiler_def Remove_def
lemmas ClientMode_consts = Monitor_def Lockdown_def

text \<open>
  C1. Encode-then-decode is the identity on the declared constants: for each of the
  four rule types, four policies and two client modes, \<^verbatim>\<open>MarshalText\<close> returns a byte
  slice and a nil error, and \<^verbatim>\<open>UnmarshalText\<close> of that slice, whatever the receiver
  held before, stores the original value and returns a nil error.
\<close>

theorem enum_roundtrip:
  "(r \<in> RuleType_values \<longrightarrow>
      (\<exists>b. RuleType_MarshalText r = (Some b, None) \<and> RuleType_UnmarshalText b r0 = (r, None))) \<and>
   (p \<in> Policy_values \<longrightarrow>
      (\<exists>b. Policy_MarshalText p = (Some b, None) \<and> Policy_UnmarshalText b p0 = (p, None))) \<and>
   (c \<in> ClientMode_values \<longrightarrow>
      (\<exists>b. ClientMode_MarshalText c = (Some b, None) \<and> ClientMode_UnmarshalText b c0 = (c, None)))"
proof (intro conjI impI)
  assume "r \<in> RuleType_values"
  then show "\<exists>b. RuleType_MarshalText r = (Some b, None) \<and> RuleType_UnmarshalText b r0 = (r, None)"
    by (auto simp: RuleType_values_def RuleType_MarshalText_def RuleType_UnmarshalText_def
        RuleType_consts)
next
  assume "p \<in> Policy_values"
  then show "\<exists>b. Policy_MarshalText p = (Some b, None) \<and> Policy_UnmarshalText b p0 = (p, None)"
    by (auto simp: Policy_values_def Policy_MarshalText_def Policy_UnmarshalText_def
        Policy_consts)
next
  assume "c \<in> ClientMode_values"
  then show "\<exists>b. ClientMode_MarshalText c = (Some b, None) \<and> ClientMode_UnmarshalText b c0 = (c, None)"
    by (auto simp: ClientMode_values_def ClientMode_MarshalText_def ClientMode_UnmarshalText_def
        ClientMode_consts)
qed

theorem enum_roundtrip_witness:
  "SigningID \<in> RuleType_values \<and> AllowlistCompiler \<in> Policy_values \<and> Lockdown \<in> ClientMode_values \<and>
   (\<exists>b. RuleType_MarshalText SigningID = (Some b, None) \<and>
        RuleType_UnmarshalText b Binary = (SigningID, None)) \<and>
   (\<exists>b. Policy_MarshalText AllowlistCompiler = (Some b, None) \<and>
        Policy_UnmarshalText b Blocklist = (AllowlistCompiler, None)) \<and>
   (\<exists>b. ClientMode_MarshalText Lockdown = (Some b, None) \<and>
        ClientMode_UnmarshalText b Monitor = (Lockdown, None))"
  using enum_roundtrip [of SigningID Binary AllowlistCompiler Blocklist Lockdown Monitor]
  by (simp add: RuleType_values_def Policy_values_def ClientMode_values_def)

text \<open>
  C2. A text outside the recognised wire set of the type makes \<^verbatim>\<open>UnmarshalText\<close>
  return a non-nil error, for each of the three types and whatever the receiver held:
  the caller is never left with a nil error and a default value.
\<close>

theorem unmarshal_unknown_fails:
  "(t \<notin> RuleType_wire \<longrightarrow> (\<exists>e. snd (RuleType_UnmarshalText t r) = Some e)) \<and>
   (t \<notin> Policy_wire \<longrightarrow> (\<exists>e. snd (Policy_UnmarshalText t p) = Some e)) \<and>
   (t \<notin> ClientMode_wire \<longrightarrow> (\<exists>e. snd (ClientMode_UnmarshalText t c) = Some e))"
  by (simp add: RuleType_wire_def Policy_wire_def ClientMode_wire_def
      RuleType_UnmarshalText_def Policy_UnmarshalText_def ClientMode_UnmarshalText_def)

theorem unmarshal_unknown_fails_witness:
  "''binary'' \<notin> RuleType_wire \<and> ''binary'' \<notin> Policy_wire \<and> ''binary'' \<notin> ClientMode_wire \<and>
   (\<exists>e. snd (RuleType_UnmarshalText ''binary'' Binary) = Some e) \<and>
   (\<exists>e. snd (Policy_UnmarshalText ''binary'' Blocklist) = Some e) \<and>
   (\<exists>e. snd (ClientMode_UnmarshalText ''binary'' Monitor) = Some e)"
  using unmarshal_unknown_fails [of "''binary''" Binary Blocklist Monitor]
  by (simp add: RuleType_wire_def Policy_wire_def ClientMode_wire_def)

lemma RuleType_MarshalText_bij:
  "bij_betw (\<lambda>r. fst (RuleType_MarshalText r)) RuleType_values (Some ` RuleType_wire)"
  by (auto simp: bij_betw_def inj_on_def RuleType_values_def RuleType_wire_def
      RuleType_MarshalText_def RuleType_consts)

lemma Policy_MarshalText_bij:
  "bij_betw (\<lambda>p. fst (Policy_MarshalText p)) Policy_values (Some ` Policy_wire)"
  by (auto simp: bij_betw_def inj_on_def Policy_values_def Policy_wire_def
      Policy_MarshalText_def Policy_consts)

lemma ClientMode_MarshalText_bij:
  "bij_betw (\<lambda>c. fst (ClientMode_MarshalText c)) ClientMode_values (Some ` ClientMode_wire)"
  by (auto simp: bij_betw_def inj_on_def ClientMode_values_def ClientMode_wire_def
      ClientMode_MarshalText_def ClientMode_consts)

lemma MarshalText_no_error:
  "r \<in> RuleType_values \<Longrightarrow> snd (RuleType_MarshalText r) = None"
  "p \<in> Policy_values \<Longrightarrow> snd (Policy_MarshalText p) = None"
  "c \<in> ClientMode_values \<Longrightarrow> snd (ClientMode_MarshalText c) = None"
  by (auto simp: RuleType_values_def RuleType_MarshalText_def
      Policy_values_def Policy_MarshalText_def ClientMode_values_def ClientMode_MarshalText_def)

lemma UnmarshalText_accepts:
  "snd (RuleType_UnmarshalText t r0) = None \<longleftrightarrow> t \<in> RuleType_wire"
  "snd (Policy_UnmarshalText t p0) = None \<longleftrightarrow> t \<in> Policy_wire"
  "snd (ClientMode_UnmarshalText t c0) = None \<longleftrightarrow> t \<in> ClientMode_wire"
  by (auto simp: RuleType_wire_def RuleType_UnmarshalText_def Policy_wire_def
      Policy_UnmarshalText_def ClientMode_wire_def ClientMode_UnmarshalText_def)

text \<open>
  C3. The wire encodings are exactly the listed sets. The byte slice \<^verbatim>\<open>MarshalText\<close>
  returns is a bijection from the four rule types onto
  \<open>{BINARY, CERTIFICATE, TEAMID, SIGNINGID}\<close>, from the four policies onto
  \<open>{BLOCKLIST, ALLOWLIST, ALLOWLIST_COMPILER, REMOVE}\<close> and from the two client modes
  onto \<open>{MONITOR, LOCKDOWN}\<close>, with a nil error on each of these values; and
  \<^verbatim>\<open>UnmarshalText\<close> returns a nil error on exactly the texts of the type's set.
\<close>

theorem wire_encoding_exact:
  "bij_betw (\<lambda>r. fst (RuleType_MarshalText r)) RuleType_values (Some ` RuleType_wire) \<and>
   bij_betw (\<lambda>p. fst (Policy_MarshalText p)) Policy_values (Some ` Policy_wire) \<and>
   bij_betw (\<lambda>c. fst (ClientMode_MarshalText c)) ClientMode_values (Some ` ClientMode_wire) \<and>
   (r \<in> RuleType_values \<longrightarrow> snd (RuleType_MarshalText r) = None) \<and>
   (p \<in> Policy_values \<longrightarrow> snd (Policy_MarshalText p) = None) \<and>
   (c \<in> ClientMode_values \<longrightarrow> snd (ClientMode_MarshalText c) = None) \<and>
   (snd (RuleType_UnmarshalText t r0) = None \<longleftrightarrow> t \<in> RuleType_wire) \<and>
   (snd (Policy_UnmarshalText t p0) = None \<longleftrightarrow> t \<in> Policy_wire) \<and>
   (snd (ClientMode_UnmarshalText t c0) = None \<longleftrightarrow> t \<in> ClientMode_wire)"
  using RuleType_MarshalText_bij Policy_MarshalText_bij ClientMode_MarshalText_bij
    MarshalText_no_error UnmarshalText_accepts
  by blast

theorem wire_encoding_exact_witness:
  "TeamID \<in> RuleType_values \<and> Remove \<in> Policy_values \<and> Monitor \<in> ClientMode_values \<and>
   snd (RuleType_MarshalText TeamID) = None \<and>
   snd (Policy_MarshalText Remove) = None \<and>
   snd (ClientMode_MarshalText Monitor) = None \<and>
   bij_betw (\<lambda>r. fst (RuleType_MarshalText r)) RuleType_values (Some ` RuleType_wire) \<and>
   snd (RuleType_UnmarshalText ''TEAMID'' Binary) = None \<and>
   snd (Policy_UnmarshalText ''TEAMID'' Blocklist) \<noteq> None"
  using wire_encoding_exact [of TeamID Remove Monitor "''TEAMID''" Binary Blocklist Monitor]
  by (simp add: RuleType_values_def Policy_values_def ClientMode_values_def
      RuleType_wire_def Policy_wire_def)

text \<open>
  C8. \<^verbatim>\<open>UnmarshalText\<close> is atomic on error: on a text outside the recognised set the
  call returns a non-nil error and the receiver holds the value it held before, for
  each of the three types.
\<close>

theorem unmarshal_error_keeps_receiver:
  "(t \<notin> RuleType_wire \<longrightarrow> (\<exists>e. RuleType_UnmarshalText t r = (r, Some e))) \<and>
   (t \<notin> Policy_wire \<longrightarrow> (\<exists>e. Policy_UnmarshalText t p = (p, Some e))) \<and>
   (t \<notin> ClientMode_wire \<longrightarrow> (\<exists>e. ClientMode_UnmarshalText t c = (c, Some e)))"
  by (simp add: RuleType_wire_def Policy_wire_def ClientMode_wire_def
      RuleType_UnmarshalText_def Policy_UnmarshalText_def ClientMode_UnmarshalText_def)

theorem unmarshal_error_keeps_receiver_witness:
  "''Lockdown'' \<notin> RuleType_wire \<and> ''Lockdown'' \<notin> Policy_wire \<and> ''Lockdown'' \<notin> ClientMode_wire \<and>
   (\<exists>e. RuleType_UnmarshalText ''Lockdown'' SigningID = (SigningID, Some e)) \<and>
   (\<exists>e. Policy_UnmarshalText ''Lockdown'' Remove = (Remove, Some e)) \<and>
   (\<exists>e. ClientMode_UnmarshalText ''Lockdown'' Lockdown = (Lockdown, Some e))"
  using unmarshal_error_keeps_receiver [of "''Lockdown''" SigningID Remove Lockdown]
  by (simp add: RuleType_wire_def Policy_wire_def ClientMode_wire_def)

text \<open>
  C9. \<^verbatim>\<open>MarshalText\<close> fails cleanly outside the declared constants: for a rule type
  or a policy outside 0..3 and a client mode outside 0..1 it returns the nil slice and
  the error of its default branch. It returns on every value: either a slice and a
  nil error, or the nil slice and an error.
\<close>

theorem marshal_out_of_range_fails:
  "(\<not> (0 \<le> r \<and> r \<le> 3) \<longrightarrow>
      RuleType_MarshalText r = (None, Some (Errorf ''unknown rule_type %d'' (Decimal r)))) \<and>
   (\<not> (0 \<le> p \<and> p \<le> 3) \<longrightarrow>
      Policy_MarshalText p = (None, Some (Errorf ''unknown policy %d'' (Decimal p)))) \<and>
   (\<not> (0 \<le> c \<and> c \<le> 1) \<longrightarrow>
      ClientMode_MarshalText c = (None, Some (Errorf ''unknown client_mode %d'' (Decimal c)))) \<and>
   ((\<exists>b. RuleType_MarshalText r = (Some b, None)) \<or> (\<exists>e. RuleType_MarshalText r = (None, Some e))) \<and>
   ((\<exists>b. Policy_MarshalText p = (Some b, None)) \<or> (\<exists>e. Policy_MarshalText p = (None, Some e))) \<and>
   ((\<exists>b. ClientMode_MarshalText c = (Some b, None)) \<or> (\<exists>e. ClientMode_MarshalText c = (None, Some e)))"
  by (auto simp: RuleType_MarshalText_def Policy_MarshalText_def ClientMode_MarshalText_def
      RuleType_consts Policy_consts ClientMode_consts)

theorem marshal_out_of_range_fails_witness:
  "\<not> (0 \<le> (4::int) \<and> (4::int) \<le> 3) \<and> \<not> (0 \<le> (-1::int) \<and> (-1::int) \<le> 3) \<and>
   \<not> (0 \<le> (2::int) \<and> (2::int) \<le> 1) \<and>
   RuleType_MarshalText 4 = (None, Some (Errorf ''unknown rule_type %d'' (Decimal 4))) \<and>
   Policy_MarshalText (-1) = (None, Some (Errorf ''unknown policy %d'' (Decimal (-1)))) \<and>
   ClientMode_MarshalText 2 = (None, Some (Errorf ''unknown client_mode %d'' (Decimal 2)))"
  using marshal_out_of_range_fails [of 4 "-1" 2]
  by simp

section \<open>EventPayload and JSON\<close>

lemma json_visible_eq: "json_visible = [F_FileSHA, F_UnixTime]"
  by (simp add: json_visible_def EventPayload_fields_def)

lemma MarshalJSON_eq:
  "EventPayload_MarshalJSON cd p =
     (case enc_float64 cd (UnixTime p) of
        None \<Rightarrow> Inl (UnsupportedValueError ''execution_time'')
      | Some x \<Rightarrow> Inr [(''file_sha256'', enc_string cd (FileSHA p)), (''execution_time'', x)])"
  by (simp add: EventPayload_MarshalJSON_def json_visible_eq split: option.splits)

lemma lookup_field_visible: "lookup_field cd k = Some f \<Longrightarrow> f \<in> set json_visible"
  by (auto simp: lookup_field_def find_Some_iff split: option.splits)

lemma set_field_Content:
  "f \<in> set json_visible \<Longrightarrow> Content (fst (set_field cd f v p)) = Content p"
  by (auto simp: json_visible_eq split: option.splits)

lemma decode_member_Content:
  "Content (fst (decode_member cd kv st)) = Content (fst st)"
proof (cases "lookup_field cd (fst kv)")
  case None
  then show ?thesis by (simp add: decode_member_def)
next
  case (Some f)
  then have "f \<in> set json_visible"
    by (rule lookup_field_visible)
  then have "Content (fst (set_field cd f (snd kv) (fst st))) = Content (fst st)"
    by (rule set_field_Content)
  then show ?thesis using Some
    by (auto simp: decode_member_def split: prod.splits)
qed

lemma fold_decode_member_Content:
  "Content (fst (fold (decode_member cd) members st)) = Content (fst st)"
  by (induction members arbitrary: st) (simp_all add: decode_member_Content)

lemma UnmarshalJSON_Content:
  "Content (fst (EventPayload_UnmarshalJSON cd doc p)) = Content p"
  by (cases doc) (simp_all add: fold_decode_member_Content)

text \<open>
  C10. \<^verbatim>\<open>Content\<close> is not part of the JSON form of an \<^verbatim>\<open>EventPayload\<close>. Encoding
  either fails, on an execution time that has no JSON form, and writes nothing, or
  writes the members \<^verbatim>\<open>file_sha256\<close> and \<^verbatim>\<open>execution_time\<close> and no other; what it
  returns does not depend on \<^verbatim>\<open>Content\<close>. Decoding any document, whatever its members
  and however keys and values are read, leaves \<^verbatim>\<open>Content\<close> as it was, so a payload
  decoded into the zero value has an empty \<^verbatim>\<open>Content\<close>.
\<close>

theorem EventPayload_json_omits_Content:
  "EventPayload_MarshalJSON cd p =
     (case enc_float64 cd (UnixTime p) of
        None \<Rightarrow> Inl (UnsupportedValueError ''execution_time'')
      | Some x \<Rightarrow> Inr [(''file_sha256'', enc_string cd (FileSHA p)), (''execution_time'', x)]) \<and>
   EventPayload_MarshalJSON cd (p\<lparr>Content := c\<rparr>) = EventPayload_MarshalJSON cd p \<and>
   Content (fst (EventPayload_UnmarshalJSON cd doc p)) = Content p \<and>
   Content (fst (EventPayload_UnmarshalJSON cd doc \<lparr>FileSHA = [], UnixTime = z, Content = []\<rparr>)) = []"
  by (simp add: MarshalJSON_eq UnmarshalJSON_Content split: option.splits)

section \<open>Precedence and Remove\<close>

lemma single_key_list:
  "distinct (map f xs) \<Longrightarrow> \<forall>x\<in>set xs. f x = k \<Longrightarrow> a \<in> set xs \<Longrightarrow> xs = [a]"
proof (cases xs)
  case Nil
  assume "a \<in> set xs"
  with Nil show ?thesis by simp
next
  case (Cons x ys)
  assume d: "distinct (map f xs)" and k: "\<forall>x\<in>set xs. f x = k" and a: "a \<in> set xs"
  have "ys = []"
  proof (rule ccontr)
    assume "ys \<noteq> []"
    then obtain y where y: "y \<in> set ys" by (cases ys) auto
    then have "f y = f x" using k Cons by simp
    moreover have "f x \<notin> f ` set ys" using d Cons by simp
    ultimately show False using y by (metis image_eqI)
  qed
  then show ?thesis using a Cons by simp
qed

lemma unique_keys_upsert: "unique_keys rs \<Longrightarrow> unique_keys (upsert_rule rs r)"
proof -
  assume u: "unique_keys rs"
  define kept where "kept = filter (\<lambda>x. rule_key x \<noteq> rule_key r) rs"
  have d: "distinct (map rule_key kept)"
    using u unfolding kept_def unique_keys_def by (rule distinct_map_filter)
  have "rule_key r \<notin> set (map rule_key kept)"
    by (auto simp: kept_def)
  with d have "distinct (map rule_key (kept @ [r]))" by simp
  with d show ?thesis
    by (simp add: upsert_rule_def Let_def unique_keys_def kept_def)
qed

lemma unique_keys_foldl: "unique_keys rs \<Longrightarrow> unique_keys (foldl upsert_rule rs ups)"
  by (induction ups arbitrary: rs) (simp_all add: unique_keys_upsert)

lemma unique_keys_apply_rules: "unique_keys (apply_rules [] ups)"
proof -
  have "unique_keys []" by (simp add: unique_keys_def)
  then show ?thesis unfolding apply_rules_def by (rule unique_keys_foldl)
qed

lemma tier_rules_single:
  assumes u: "unique_keys rs" and a: "a \<in> set rs" "Policy a \<noteq> Remove"
    and m: "event_identifier e (RuleType a) = Some (Identifier a)"
  shows "filter (\<lambda>r. RuleType r = RuleType a) (effective_set (matching_rules e rs)) = [a]"
proof -
  define xs where "xs = filter (\<lambda>r. RuleType r = RuleType a) (effective_set (matching_rules e rs))"
  have xs_eq: "xs = filter (\<lambda>r. RuleType r = RuleType a \<and> Policy r \<noteq> Remove \<and>
      event_identifier e (RuleType r) = Some (Identifier r)) rs"
    unfolding xs_def effective_set_def matching_rules_def filter_filter
    by (rule filter_cong) auto
  have "distinct (map rule_key rs)"
    using u by (simp add: unique_keys_def)
  then have d: "distinct (map rule_key xs)"
    unfolding xs_eq by (rule distinct_map_filter)
  have k: "\<forall>x\<in>set xs. rule_key x = rule_key a"
    using m by (auto simp: xs_eq rule_key_def)
  have "a \<in> set xs"
    using a m by (simp add: xs_eq)
  with d k have "xs = [a]" by (rule single_key_list)
  then show ?thesis by (simp add: xs_def)
qed

lemma tier_rules_none:
  "event_identifier e t = None \<Longrightarrow>
   filter (\<lambda>r. RuleType r = t) (effective_set (matching_rules e rs)) = []"
  by (auto simp: effective_set_def matching_rules_def filter_empty_conv)

text \<open>
  C4. Binary outranks TeamID. The rule set is any state of a machine's rule store,
  built from the empty store by upserts. The event carries the binary hash \<open>H\<close> and
  the team identifier \<open>T\<close>; the rule set holds a Binary rule with policy Allowlist
  for \<open>H\<close> and a TeamID rule with policy Blocklist for \<open>T\<close>. Then the engine's
  decision is Allowlist, whatever else the set holds and whatever the fallback is;
  and it is the Binary rule that wins over the TeamID rule: for the same event
  without its hash, certificate and signing identifier, the same rule set gives
  Blocklist.
\<close>

theorem binary_outranks_team:
  assumes ev: "binary_hash e = Some H" "team_id e = Some T"
    and a: "a \<in> set (apply_rules [] ups)"
      "RuleType a = Binary" "Policy a = Allowlist" "Identifier a = H"
    and b: "b \<in> set (apply_rules [] ups)"
      "RuleType b = TeamID" "Policy b = Blocklist" "Identifier b = T"
  shows "PolicyPrecedenceEngine e fallback (apply_rules [] ups) =
           Inr \<lparr>effective = Allowlist, watch_compiler = None\<rparr> \<and>
         PolicyPrecedenceEngine (e\<lparr>binary_hash := None, certificate_hash := None, signing_id := None\<rparr>)
             fallback (apply_rules [] ups) =
           Inr \<lparr>effective = Blocklist, watch_compiler = None\<rparr>"
proof
  have "event_identifier e (RuleType a) = Some (Identifier a)"
    using ev a by (simp add: event_identifier_def)
  moreover have "Policy a \<noteq> Remove"
    using a by (simp add: Policy_consts)
  ultimately have "filter (\<lambda>r. RuleType r = Binary)
      (effective_set (matching_rules e (apply_rules [] ups))) = [a]"
    using tier_rules_single [OF unique_keys_apply_rules a(1)] a(2) by simp
  then show "PolicyPrecedenceEngine e fallback (apply_rules [] ups) =
      Inr \<lparr>effective = Allowlist, watch_compiler = None\<rparr>"
    using a by (simp add: PolicyPrecedenceEngine_def precedence_tiers_def rule_decision_def
        Policy_consts)
next
  define e' where "e' = e\<lparr>binary_hash := None, certificate_hash := None, signing_id := None\<rparr>"
  have none: "event_identifier e' Binary = None" "event_identifier e' SigningID = None"
    "event_identifier e' Certificate = None"
    by (simp_all add: e'_def event_identifier_def RuleType_consts)
  have "event_identifier e' (RuleType b) = Some (Identifier b)"
    using ev b by (simp add: e'_def event_identifier_def RuleType_consts)
  moreover have "Policy b \<noteq> Remove"
    using b by (simp add: Policy_consts)
  ultimately have "filter (\<lambda>r. RuleType r = TeamID)
      (effective_set (matching_rules e' (apply_rules [] ups))) = [b]"
    using tier_rules_single [OF unique_keys_apply_rules b(1)] b(2) by simp
  then have "PolicyPrecedenceEngine e' fallback (apply_rules [] ups) =
      Inr \<lparr>effective = Blocklist, watch_compiler = None\<rparr>"
    using b none by (simp add: PolicyPrecedenceEngine_def precedence_tiers_def rule_decision_def
        tier_rules_none Policy_consts)
  then show "PolicyPrecedenceEngine
      (e\<lparr>binary_hash := None, certificate_hash := None, signing_id := None\<rparr>)
      fallback (apply_rules [] ups) = Inr \<lparr>effective = Blocklist, watch_compiler = None\<rparr>"
    by (simp add: e'_def)
qed


theorem binary_outranks_team_witness:
  "binary_hash \<lparr>binary_hash = Some ''H'', certificate_hash = None, team_id = Some ''T'', signing_id = None\<rparr> = Some ''H'' \<and>
   team_id \<lparr>binary_hash = Some ''H'', certificate_hash = None, team_id = Some ''T'', signing_id = None\<rparr> = Some ''T'' \<and>
   \<lparr>RuleType = Binary, Policy = Allowlist, Identifier = ''H'', CustomMessage = ''''\<rparr> \<in> set (apply_rules []
     [\<lparr>RuleType = TeamID, Policy = Blocklist, Identifier = ''T'', CustomMessage = ''''\<rparr>,
      \<lparr>RuleType = Binary, Policy = Allowlist, Identifier = ''H'', CustomMessage = ''''\<rparr>]) \<and>
   \<lparr>RuleType = TeamID, Policy = Blocklist, Identifier = ''T'', CustomMessage = ''''\<rparr> \<in> set (apply_rules []
     [\<lparr>RuleType = TeamID, Policy = Blocklist, Identifier = ''T'', CustomMessage = ''''\<rparr>,
      \<lparr>RuleType = Binary, Policy = Allowlist, Identifier = ''H'', CustomMessage = ''''\<rparr>]) \<and>
   PolicyPrecedenceEngine
     \<lparr>binary_hash = Some ''H'', certificate_hash = None, team_id = Some ''T'', signing_id = None\<rparr>
     Blocklist
     (apply_rules []
       [\<lparr>RuleType = TeamID, Policy = Blocklist, Identifier = ''T'', CustomMessage = ''''\<rparr>,
        \<lparr>RuleType = Binary, Policy = Allowlist, Identifier = ''H'', CustomMessage = ''''\<rparr>])
   = Inr \<lparr>effective = Allowlist, watch_compiler = None\<rparr>"
proof -
  have mem: "\<lparr>RuleType = Binary, Policy = Allowlist, Identifier = ''H'', CustomMessage = ''''\<rparr> \<in> set (apply_rules []
     [\<lparr>RuleType = TeamID, Policy = Blocklist, Identifier = ''T'', CustomMessage = ''''\<rparr>,
      \<lparr>RuleType = Binary, Policy = Allowlist, Identifier = ''H'', CustomMessage = ''''\<rparr>])"
    "\<lparr>RuleType = TeamID, Policy = Blocklist, Identifier = ''T'', CustomMessage = ''''\<rparr> \<in> set (apply_rules []
     [\<lparr>RuleType = TeamID, Policy = Blocklist, Identifier = ''T'', CustomMessage = ''''\<rparr>,
      \<lparr>RuleType = Binary, Policy = Allowlist, Identifier = ''H'', CustomMessage = ''''\<rparr>])"
    by (simp_all add: apply_rules_def upsert_rule_def rule_key_def RuleType_consts Policy_consts)
  show ?thesis
    using mem binary_outranks_team
      [of "\<lparr>binary_hash = Some ''H'', certificate_hash = None, team_id = Some ''T'', signing_id = None\<rparr>"
          "''H''" "''T''"
          "\<lparr>RuleType = Binary, Policy = Allowlist, Identifier = ''H'', CustomMessage = ''''\<rparr>"
          "[\<lparr>RuleType = TeamID, Policy = Blocklist, Identifier = ''T'', CustomMessage = ''''\<rparr>,
            \<lparr>RuleType = Binary, Policy = Allowlist, Identifier = ''H'', CustomMessage = ''''\<rparr>]"
          "\<lparr>RuleType = TeamID, Policy = Blocklist, Identifier = ''T'', CustomMessage = ''''\<rparr>"
          Blocklist, OF _ _ mem(1) _ _ _ mem(2)]
    by simp
qed

lemma effective_set_drop_Remove:
  "Policy r = Remove \<Longrightarrow>
   effective_set (matching_rules e (xs @ r # ys)) = effective_set (matching_rules e (xs @ ys))"
  by (simp add: effective_set_def matching_rules_def)

lemma rule_decision_not_Remove: "Policy r \<noteq> Remove \<Longrightarrow> effective (rule_decision r) \<noteq> Remove"
  by (simp add: rule_decision_def Policy_consts)

lemma resolve_tiers_not_Remove:
  "\<forall>r\<in>set rs. Policy r \<noteq> Remove \<Longrightarrow> effective fb \<noteq> Remove \<Longrightarrow>
   resolve_tiers ts rs fb = Inr d \<Longrightarrow> effective d \<noteq> Remove"
proof (induction ts)
  case Nil
  then show ?case by simp
next
  case (Cons t ts)
  show ?case
  proof (cases "filter (\<lambda>r. RuleType r = t) rs")
    case Nil
    with Cons show ?thesis by simp
  next
    case (Cons r others)
    then have "r \<in> set (filter (\<lambda>r. RuleType r = t) rs)" by simp
    then have "Policy r \<noteq> Remove" using Cons.prems(1) by simp
    then have "effective (rule_decision r) \<noteq> Remove" by (rule rule_decision_not_Remove)
    then show ?thesis using Cons.prems(3) Cons
      by (auto split: if_splits)
  qed
qed

lemma resolve_tiers_empty: "resolve_tiers ts [] fb = Inr fb"
  by (induction ts) simp_all

lemma upsert_Remove_no_key:
  "Policy r = Remove \<Longrightarrow> x \<in> set (upsert_rule rs r) \<Longrightarrow> rule_key x \<noteq> rule_key r"
  by (simp add: upsert_rule_def)

text \<open>
  C5. Rules with policy Remove never contribute to the decision. Putting a Remove
  rule anywhere into a rule set leaves the engine's answer as it is, and a decision
  is never Remove unless the fallback itself is. In the scenario, the
  upserts Certificate/Allowlist for \<open>C\<close> and then Certificate/Remove for \<open>C\<close> leave no
  rule with the key (Certificate, \<open>C\<close>) in any store; applied to the empty store they
  leave no rule at all, and the decision for any event is the fallback of the client
  mode.
\<close>

theorem remove_never_contributes:
  "(Policy r = Remove \<longrightarrow>
      PolicyPrecedenceEngine e fb (xs @ r # ys) = PolicyPrecedenceEngine e fb (xs @ ys)) \<and>
   (fb \<noteq> Remove \<and> PolicyPrecedenceEngine e fb rs = Inr d \<longrightarrow> effective d \<noteq> Remove) \<and>
   (\<forall>x \<in> set (apply_rules rs0
        [\<lparr>RuleType = Certificate, Policy = Allowlist, Identifier = C, CustomMessage = m1\<rparr>,
         \<lparr>RuleType = Certificate, Policy = Remove, Identifier = C, CustomMessage = m2\<rparr>]).
      rule_key x \<noteq> (Certificate, C)) \<and>
   apply_rules []
        [\<lparr>RuleType = Certificate, Policy = Allowlist, Identifier = C, CustomMessage = m1\<rparr>,
         \<lparr>RuleType = Certificate, Policy = Remove, Identifier = C, CustomMessage = m2\<rparr>] = [] \<and>
   (default_decision mode = Some dflt \<longrightarrow>
      PolicyPrecedenceEngine e dflt (apply_rules []
        [\<lparr>RuleType = Certificate, Policy = Allowlist, Identifier = C, CustomMessage = m1\<rparr>,
         \<lparr>RuleType = Certificate, Policy = Remove, Identifier = C, CustomMessage = m2\<rparr>])
      = Inr \<lparr>effective = dflt, watch_compiler = None\<rparr>)"
proof (intro conjI impI ballI)
  assume "Policy r = Remove"
  then show "PolicyPrecedenceEngine e fb (xs @ r # ys) = PolicyPrecedenceEngine e fb (xs @ ys)"
    by (simp add: PolicyPrecedenceEngine_def effective_set_drop_Remove)
next
  assume h: "fb \<noteq> Remove \<and> PolicyPrecedenceEngine e fb rs = Inr d"
  have "\<forall>r\<in>set (effective_set (matching_rules e rs)). Policy r \<noteq> Remove"
    by (simp add: effective_set_def)
  moreover have "effective \<lparr>effective = fb, watch_compiler = None\<rparr> \<noteq> Remove"
    using h by simp
  moreover have "resolve_tiers precedence_tiers (effective_set (matching_rules e rs))
      \<lparr>effective = fb, watch_compiler = None\<rparr> = Inr d"
    using h by (simp add: PolicyPrecedenceEngine_def)
  ultimately show "effective d \<noteq> Remove" by (rule resolve_tiers_not_Remove)
next
  fix x
  assume "x \<in> set (apply_rules rs0
        [\<lparr>RuleType = Certificate, Policy = Allowlist, Identifier = C, CustomMessage = m1\<rparr>,
         \<lparr>RuleType = Certificate, Policy = Remove, Identifier = C, CustomMessage = m2\<rparr>])"
  then have "x \<in> set (upsert_rule
        (upsert_rule rs0 \<lparr>RuleType = Certificate, Policy = Allowlist, Identifier = C, CustomMessage = m1\<rparr>)
        \<lparr>RuleType = Certificate, Policy = Remove, Identifier = C, CustomMessage = m2\<rparr>)"
    by (simp add: apply_rules_def)
  then have "rule_key x \<noteq>
      rule_key \<lparr>RuleType = Certificate, Policy = Remove, Identifier = C, CustomMessage = m2\<rparr>"
    by (rule upsert_Remove_no_key [rotated]) simp
  then show "rule_key x \<noteq> (Certificate, C)" by (simp add: rule_key_def)
next
  show empty: "apply_rules []
        [\<lparr>RuleType = Certificate, Policy = Allowlist, Identifier = C, CustomMessage = m1\<rparr>,
         \<lparr>RuleType = Certificate, Policy = Remove, Identifier = C, CustomMessage = m2\<rparr>] = []"
    by (simp add: apply_rules_def upsert_rule_def rule_key_def Policy_consts)
  show "PolicyPrecedenceEngine e dflt (apply_rules []
        [\<lparr>RuleType = Certificate, Policy = Allowlist, Identifier = C, CustomMessage = m1\<rparr>,
         \<lparr>RuleType = Certificate, Policy = Remove, Identifier = C, CustomMessage = m2\<rparr>])
      = Inr \<lparr>effective = dflt, watch_compiler = None\<rparr>"
    unfolding empty
    by (simp add: PolicyPrecedenceEngine_def matching_rules_def effective_set_def resolve_tiers_empty)
qed

theorem remove_never_contributes_witness:
  "Policy \<lparr>RuleType = Certificate, Policy = Remove, Identifier = ''C'', CustomMessage = ''''\<rparr> = Remove \<and>
   default_decision Lockdown = Some Blocklist \<and>
   PolicyPrecedenceEngine
     \<lparr>binary_hash = None, certificate_hash = Some ''C'', team_id = None, signing_id = None\<rparr> Blocklist
     ([\<lparr>RuleType = Certificate, Policy = Allowlist, Identifier = ''C'', CustomMessage = ''''\<rparr>] @
       \<lparr>RuleType = Certificate, Policy = Remove, Identifier = ''C'', CustomMessage = ''''\<rparr> # []) =
   PolicyPrecedenceEngine
     \<lparr>binary_hash = None, certificate_hash = Some ''C'', team_id = None, signing_id = None\<rparr> Blocklist
     ([\<lparr>RuleType = Certificate, Policy = Allowlist, Identifier = ''C'', CustomMessage = ''''\<rparr>] @ []) \<and>
   PolicyPrecedenceEngine
     \<lparr>binary_hash = None, certificate_hash = Some ''C'', team_id = None, signing_id = None\<rparr> Blocklist
     (apply_rules []
        [\<lparr>RuleType = Certificate, Policy = Allowlist, Identifier = ''C'', CustomMessage = ''''\<rparr>,
         \<lparr>RuleType = Certificate, Policy = Remove, Identifier = ''C'', CustomMessage = ''''\<rparr>])
     = Inr \<lparr>effective = Blocklist, watch_compiler = None\<rparr>"
  using remove_never_contributes
    [of "\<lparr>RuleType = Certificate, Policy = Remove, Identifier = ''C'', CustomMessage = ''''\<rparr>"
        "\<lparr>binary_hash = None, certificate_hash = Some ''C'', team_id = None, signing_id = None\<rparr>"
        Blocklist
        "[\<lparr>RuleType = Certificate, Policy = Allowlist, Identifier = ''C'', CustomMessage = ''''\<rparr>]"
        "[]" "[]" "\<lparr>effective = Blocklist, watch_compiler = None\<rparr>" "[]" "''C''" "''''" "''''"
        Lockdown Blocklist]
  by (auto simp: default_decision_def)


section \<open>Pagination\<close>

lemma effective_batch_size_pos: "0 < effective_batch_size pf"
  by (simp add: effective_batch_size_def)

lemma ceil_div_zero: "0 < b \<Longrightarrow> ceil_div 0 b = 0"
  by (simp add: ceil_div_def)

lemma ceil_div_one: "0 < n \<Longrightarrow> n \<le> b \<Longrightarrow> ceil_div n b = 1"
proof -
  assume n: "0 < n" and nb: "n \<le> b"
  have bpos: "0 < b" using n nb by simp
  have e: "n + b - 1 = (n - 1) + b" using n by simp
  have small: "(n - 1) div b = 0" using n nb by simp
  have "((n - 1) + b) div b = (n - 1) div b + 1"
    using bpos by (metis div_add_self2 less_numeral_extra(3))
  then show "ceil_div n b = 1"
    unfolding ceil_div_def e using small by simp
qed

lemma ceil_div_step: "0 < b \<Longrightarrow> b < n \<Longrightarrow> ceil_div n b = Suc (ceil_div (n - b) b)"
proof -
  assume b: "0 < b" and n: "b < n"
  have "n + b - 1 = (n - b + b - 1) + b" using b n by simp
  then have "(n + b - 1) div b = (n - b + b - 1) div b + 1"
    using b by (metis div_add_self2 less_numeral_extra(3))
  then show ?thesis by (simp add: ceil_div_def)
qed


lemma download_all_from:
  "cursor_version c = rules_version rs \<Longrightarrow>
   \<exists>replies. download_all pf rs c = Inr replies \<and>
     concat (map fst replies) = drop (offset c) (rules rs) \<and>
     map snd replies = replicate (length replies - 1) False @ [True] \<and>
     length (batches replies) =
       ceil_div (length (rules rs) - offset c) (effective_batch_size pf) \<and>
     length replies =
       max 1 (ceil_div (length (rules rs) - offset c) (effective_batch_size pf))"
proof (induction pf rs c rule: download_all.induct)
  case (1 pf rs c)
  define b where "b = effective_batch_size pf"
  define n where "n = length (rules rs)"
  define k where "k = offset c"
  define batch where "batch = take b (drop k (rules rs))"
  define nxt where "nxt = c\<lparr>offset := k + length batch\<rparr>"
  have bpos: "0 < b" by (simp add: b_def effective_batch_size_pos)
  have call: "DownloadBatch pf rs c = Inr (batch, nxt, n \<le> k + length batch)"
    using "1.prems" by (simp add: DownloadBatch_def Let_def b_def n_def k_def batch_def nxt_def)
  have len: "length batch = min b (n - k)"
    by (simp add: batch_def n_def)
  show ?case
  proof (cases "n \<le> k + length batch")
    case True
    then have small: "n - k \<le> b" using len by (simp add: min_def split: if_splits)
    have da: "download_all pf rs c = Inr [(batch, True)]"
      using call True by (simp add: download_all.simps [of pf rs c])
    have whole: "batch = drop k (rules rs)"
      using small by (simp add: batch_def n_def)
    have cnt: "length (batches [(batch, True)]) = ceil_div (n - k) b"
    proof (cases "n - k = 0")
      case True
      then have "batch = []" using len by simp
      then show ?thesis using True bpos by (simp add: batches_def ceil_div_zero)
    next
      case False
      then have "batch \<noteq> []" using len bpos by auto
      then show ?thesis using False small by (simp add: batches_def ceil_div_one)
    qed
    have calls: "length [(batch, True)] = max 1 (ceil_div (n - k) b)"
      using cnt by (simp add: batches_def split: if_splits)
    show ?thesis
      using da whole cnt calls unfolding n_def k_def b_def by simp
  next
    case False
    then have big: "b < n - k" using len by (simp add: min_def split: if_splits)
    then have lb: "length batch = b" using len by simp
    then have ne: "batch \<noteq> []" using bpos by auto
    have ver: "cursor_version nxt = rules_version rs"
      using "1.prems" by (simp add: nxt_def)
    from "1.IH" [OF call refl refl False ver]
    obtain rest where rest: "download_all pf rs nxt = Inr rest"
      and cat: "concat (map fst rest) = drop (offset nxt) (rules rs)"
      and flags: "map snd rest = replicate (length rest - 1) False @ [True]"
      and cnt: "length (batches rest) = ceil_div (n - offset nxt) b"
      and calls: "length rest = max 1 (ceil_div (n - offset nxt) b)"
      by (auto simp: n_def b_def)
    have off: "offset nxt = k + b" by (simp add: nxt_def lb)
    have da: "download_all pf rs c = Inr ((batch, False) # rest)"
      using call False rest by (simp add: download_all.simps [of pf rs c])
    have c1: "concat (map fst ((batch, False) # rest)) = drop k (rules rs)"
    proof -
      have "batch @ drop (k + b) (rules rs) = drop k (rules rs)"
        unfolding batch_def by (metis add.commute append_take_drop_id drop_drop)
      then show ?thesis using cat off by simp
    qed
    have rest_ne: "0 < length rest" using calls by simp
    have c2: "map snd ((batch, False) # rest) = replicate (length ((batch, False) # rest) - 1) False @ [True]"
    proof -
      have "length rest = Suc (length rest - 1)" using rest_ne by simp
      then have "replicate (length rest) False = False # replicate (length rest - 1) False"
        by (metis replicate_Suc)
      then show ?thesis using flags by simp
    qed
    have step: "ceil_div (n - k) b = Suc (ceil_div (n - k - b) b)"
      by (rule ceil_div_step [OF bpos big])
    have ge1: "1 \<le> ceil_div (n - k - b) b"
      using big bpos by (simp add: ceil_div_def Suc_le_eq div_greater_zero_iff)
    have c3: "length (batches ((batch, False) # rest)) = ceil_div (n - k) b"
      using cnt off ne step by (simp add: batches_def)
    have c4: "length ((batch, False) # rest) = max 1 (ceil_div (n - k) b)"
      using calls off step ge1 by simp
    show ?thesis
      using da c1 c2 c3 c4 unfolding n_def k_def b_def by blast
  qed
qed


lemma download_calls:
  "\<exists>replies. download_all pf rs (cursor_zero rs) = Inr replies \<and>
     length replies = max 1 (ceil_div (length (rules rs)) (effective_batch_size pf))"
  using download_all_from [of "cursor_zero rs" rs pf]
  by (auto simp: cursor_zero_def)



section \<open>Session ordering\<close>

text \<open>
  C7. On a fresh session, in phase Started, \<^verbatim>\<open>DownloadBatch\<close> fails with
  \<^verbatim>\<open>ProtocolViolation\<close> and the session is Aborted; and every call that is not the one
  the phase order expects in the session's phase fails with \<^verbatim>\<open>ProtocolViolation\<close>,
  and leaves the session in phase Aborted unless it is Committed, which it then
  stays. The calls in order are listed in the statement: each other pair of a phase
  and a call is out of order.
\<close>

theorem out_of_order_call_fails:
  "session_call (new_session m) CallDownloadBatch =
     (\<lparr>machine_id = m, phase = Aborted\<rparr>, Some ProtocolViolation) \<and>
   ((phase s, c) \<notin> {(Started, CallPreflight), (Preflighted, CallDownloadBatch),
        (Downloading, CallDownloadBatch), (Downloading, CallUploadEvents),
        (EventsUploaded, CallPostflight), (Committed, CallPostflight)} \<longrightarrow>
      session_call s c =
        (if phase s = Committed then s else s\<lparr>phase := Aborted\<rparr>, Some ProtocolViolation))"
proof (intro conjI impI)
  show "session_call (new_session m) CallDownloadBatch =
     (\<lparr>machine_id = m, phase = Aborted\<rparr>, Some ProtocolViolation)"
    by (simp add: session_call_def new_session_def terminal_def)
next
  assume "(phase s, c) \<notin> {(Started, CallPreflight), (Preflighted, CallDownloadBatch),
        (Downloading, CallDownloadBatch), (Downloading, CallUploadEvents),
        (EventsUploaded, CallPostflight), (Committed, CallPostflight)}"
  then have "expected_next (phase s) c = None"
    by (cases "phase s"; cases c) simp_all
  moreover have "phase s = Aborted \<Longrightarrow> s\<lparr>phase := Aborted\<rparr> = s"
    by simp
  ultimately show "session_call s c =
        (if phase s = Committed then s else s\<lparr>phase := Aborted\<rparr>, Some ProtocolViolation)"
    by (auto simp: session_call_def terminal_def)
qed

theorem out_of_order_call_fails_witness:
  "(phase \<lparr>machine_id = ''m1'', phase = Preflighted\<rparr>, CallPostflight) \<notin>
      {(Started, CallPreflight), (Preflighted, CallDownloadBatch),
        (Downloading, CallDownloadBatch), (Downloading, CallUploadEvents),
        (EventsUploaded, CallPostflight), (Committed, CallPostflight)} \<and>
   session_call \<lparr>machine_id = ''m1'', phase = Preflighted\<rparr> CallPostflight =
     (\<lparr>machine_id = ''m1'', phase = Aborted\<rparr>, Some ProtocolViolation)"
  using out_of_order_call_fails [of "''m1''" "\<lparr>machine_id = ''m1'', phase = Preflighted\<rparr>" CallPostflight]
  by simp

text \<open>
  A Committed session that receives \<^verbatim>\<open>DownloadBatch\<close>, a call out of the phase order:
  the call fails with \<^verbatim>\<open>ProtocolViolation\<close> and the session is still Committed, not
  Aborted.
\<close>

theorem committed_session_counterexample:
  "expected_next Committed CallDownloadBatch = None \<and>
   session_call \<lparr>machine_id = ''m1'', phase = Committed\<rparr> CallDownloadBatch =
     (\<lparr>machine_id = ''m1'', phase = Committed\<rparr>, Some ProtocolViolation) \<and>
   phase (fst (session_call \<lparr>machine_id = ''m1'', phase = Committed\<rparr> CallDownloadBatch)) \<noteq> Aborted"
  by (simp add: session_call_def terminal_def)


end
